theory Spec2Isabelle
  imports Main "HOL-Library.Sublist"
begin

section \<open>The wake/sleep transcription hook \<open>useSpeechRecognition\<close>\<close>

text \<open>
  A shallow embedding of \<^verbatim>\<open>src/hooks/useSpeechRecognition.ts\<close>. The hook keeps six
  React state cells and two refs; its handlers (\<^verbatim>\<open>recognition.onresult\<close>,
  \<^verbatim>\<open>recognition.onerror\<close>) and its commands (\<^verbatim>\<open>startListening\<close>,
  \<^verbatim>\<open>stopListening\<close>, \<^verbatim>\<open>resetTranscript\<close>) are modelled as functions from the
  state to the new state and the list of callbacks invoked, in invocation order.

  A JavaScript string is a sequence of UTF-16 code units; the model restricts text to
  the code units below 256, one \<^typ>\<open>char\<close> each. In that range \<^verbatim>\<open>toLowerCase\<close>
  keeps the length of a string, and the characters stripped by \<^verbatim>\<open>trim\<close> are
  U+0009 to U+000D, U+0020 and U+00A0.
\<close>

subsection \<open>String operations of the host language\<close>

definition isWhiteSpace :: "char \<Rightarrow> bool" where
  "isWhiteSpace c =
     (let n = (of_char c :: nat) in (9 \<le> n \<and> n \<le> 13) \<or> n = 32 \<or> n = 160)"

text \<open>\<^verbatim>\<open>String.prototype.trim\<close>: white space removed from both ends.\<close>

definition trim :: "string \<Rightarrow> string" where
  "trim s = rev (dropWhile isWhiteSpace (rev (dropWhile isWhiteSpace s)))"

definition toLowerChar :: "char \<Rightarrow> char" where
  "toLowerChar c =
     (let n = (of_char c :: nat) in
      if (65 \<le> n \<and> n \<le> 90) \<or> (192 \<le> n \<and> n \<le> 222 \<and> n \<noteq> 215)
      then char_of (n + 32) else c)"

text \<open>\<^verbatim>\<open>String.prototype.toLowerCase\<close>.\<close>

definition toLowerCase :: "string \<Rightarrow> string" where
  "toLowerCase s = map toLowerChar s"

text \<open>
  Position of the first occurrence of \<open>w\<close> in \<open>s\<close>, scanning from the left; the empty
  string occurs at position 0 of every string.
\<close>

fun first_occ :: "string \<Rightarrow> string \<Rightarrow> nat option" where
  "first_occ w [] = (if w = [] then Some 0 else None)"
| "first_occ w (x # xs) =
     (if prefix w (x # xs) then Some 0
      else case first_occ w xs of None \<Rightarrow> None | Some i \<Rightarrow> Some (Suc i))"

text \<open>\<^verbatim>\<open>s.indexOf(w)\<close>: the first position, or \<open>-1\<close> when \<open>w\<close> does not occur.\<close>

definition indexOf :: "string \<Rightarrow> string \<Rightarrow> int" where
  "indexOf s w = (case first_occ w s of None \<Rightarrow> - 1 | Some i \<Rightarrow> int i)"

text \<open>\<^verbatim>\<open>s.includes(w)\<close> (\<open>includes\<close> is a keyword of Isabelle).\<close>

definition str_includes :: "string \<Rightarrow> string \<Rightarrow> bool" where
  "str_includes s w = (first_occ w s \<noteq> None)"

text \<open>
  \<^verbatim>\<open>s.substring(start, end)\<close>: both indices are clamped to \<open>0 .. length s\<close> and swapped
  when \<open>start\<close> exceeds \<open>end\<close>; an omitted \<open>end\<close> is the length of \<open>s\<close>.
\<close>

definition clampIndex :: "string \<Rightarrow> int \<Rightarrow> nat" where
  "clampIndex s i = min (nat i) (length s)"

definition substring :: "string \<Rightarrow> int \<Rightarrow> int option \<Rightarrow> string" where
  "substring s start fin =
     (let a = clampIndex s start;
          b = (case fin of None \<Rightarrow> length s | Some e \<Rightarrow> clampIndex s e);
          lo = min a b; hi = max a b
      in take (hi - lo) (drop lo s))"

subsection \<open>Data model\<close>

text \<open>
  One \<^verbatim>\<open>SpeechRecognitionResult\<close>: the transcript of its first alternative
  (\<^verbatim>\<open>result[0].transcript\<close>) and its \<^verbatim>\<open>isFinal\<close> flag.
\<close>

record speech_result =
  alt_transcript :: string
  isFinal :: bool

text \<open>\<^verbatim>\<open>SpeechRecognitionEvent\<close>.\<close>

record speech_event =
  results :: "speech_result list"
  resultIndex :: nat

text \<open>The options of \<^verbatim>\<open>UseSpeechRecognitionOptions\<close> that the handlers read.\<close>

record options =
  wakeWord :: string
  sleepWord :: string

definition default_options :: options where
  "default_options = \<lparr>wakeWord = ''hi'', sleepWord = ''bye''\<rparr>"

text \<open>
  The state cells of the hook and its two refs: \<open>recognitionRef\<close> records whether
  \<^verbatim>\<open>recognitionRef.current\<close> holds a recognizer (it is \<^verbatim>\<open>null\<close> otherwise) and
  \<open>isActiveRef\<close> is \<^verbatim>\<open>isActiveRef.current\<close>.
\<close>

record hook_state =
  isListening :: bool
  isActive :: bool
  transcript :: string
  interimTranscript :: string
  error :: "string option"
  isSupported :: bool
  recognitionRef :: bool
  isActiveRef :: bool

text \<open>An invocation of one of the callbacks supplied in the options.\<close>

datatype callback =
    OnTranscript string bool
  | OnWakeWordDetected
  | OnSleepWordDetected
  | OnError string

text \<open>The values given to \<^verbatim>\<open>useState\<close> and \<^verbatim>\<open>useRef\<close> on the first render.\<close>

definition initial_state :: hook_state where
  "initial_state =
     \<lparr>isListening = False, isActive = False, transcript = [], interimTranscript = [],
      error = None, isSupported = False, recognitionRef = False, isActiveRef = False\<rparr>"

subsection \<open>The result handler\<close>

text \<open>
  The loop over \<^verbatim>\<open>event.results\<close> from \<^verbatim>\<open>event.resultIndex\<close>: it accumulates
  \<open>interimText\<close> and \<open>finalText\<close>.
\<close>

fun collect :: "speech_result list \<Rightarrow> string \<Rightarrow> string \<Rightarrow> string \<times> string" where
  "collect [] interimText finalText = (interimText, finalText)"
| "collect (r # rs) interimText finalText =
     (let transcriptText = trim (alt_transcript r) in
      if isFinal r then collect rs interimText (finalText @ transcriptText @ '' '')
      else collect rs (interimText @ transcriptText) finalText)"

definition event_texts :: "speech_event \<Rightarrow> string \<times> string" where
  "event_texts ev = collect (drop (resultIndex ev) (results ev)) [] []"

text \<open>The block \<^verbatim>\<open>if (interimText) { ... }\<close>.\<close>

definition apply_interim :: "string \<Rightarrow> hook_state \<Rightarrow> hook_state \<times> callback list" where
  "apply_interim interimText s =
     (if interimText \<noteq> [] then
        (s\<lparr>interimTranscript := interimText\<rparr>,
         if \<not> isActiveRef s then [OnTranscript interimText False] else [])
      else (s, []))"

definition textAfterWakeWord :: "options \<Rightarrow> string \<Rightarrow> string" where
  "textAfterWakeWord opts finalText =
     (let lowerText = toLowerCase finalText;
          wakeWordIndex = indexOf lowerText (toLowerCase (wakeWord opts))
      in trim (substring finalText (wakeWordIndex + int (length (wakeWord opts))) None))"

definition textBeforeSleepWord :: "options \<Rightarrow> string \<Rightarrow> string" where
  "textBeforeSleepWord opts finalText =
     (let lowerText = toLowerCase finalText;
          sleepWordIndex = indexOf lowerText (toLowerCase (sleepWord opts))
      in trim (substring finalText 0 (Some sleepWordIndex)))"

text \<open>The block \<^verbatim>\<open>if (finalText) { ... }\<close>, entered with a non-empty \<open>finalText\<close>.\<close>

definition process_final ::
  "options \<Rightarrow> string \<Rightarrow> hook_state \<Rightarrow> hook_state \<times> callback list" where
  "process_final opts finalText s =
     (let lowerText = toLowerCase finalText;
          (s', out) =
            (if \<not> isActiveRef s \<and> str_includes lowerText (toLowerCase (wakeWord opts)) then
               (let s1 = s\<lparr>isActiveRef := True, isActive := True,
                           transcript := [], interimTranscript := []\<rparr>;
                    textAfter = textAfterWakeWord opts finalText
                in if textAfter \<noteq> [] then
                     (s1\<lparr>transcript := textAfter @ '' ''\<rparr>,
                      [OnWakeWordDetected, OnTranscript textAfter True])
                   else (s1, [OnWakeWordDetected]))
             else if isActiveRef s \<and> str_includes lowerText (toLowerCase (sleepWord opts)) then
               (let textBefore = textBeforeSleepWord opts finalText;
                    (s1, out1) =
                      (if textBefore \<noteq> [] then
                         (s\<lparr>transcript := transcript s @ textBefore @ '' ''\<rparr>,
                          [OnTranscript textBefore True])
                       else (s, []))
                in (s1\<lparr>isActiveRef := False, isActive := False, interimTranscript := []\<rparr>,
                    out1 @ [OnSleepWordDetected]))
             else if isActiveRef s then
               (s\<lparr>transcript := transcript s @ finalText\<rparr>, [OnTranscript finalText True])
             else (s, []))
      in (s'\<lparr>interimTranscript := []\<rparr>, out))"

text \<open>\<^verbatim>\<open>recognition.onresult\<close>.\<close>

definition onresult :: "options \<Rightarrow> speech_event \<Rightarrow> hook_state \<Rightarrow> hook_state \<times> callback list" where
  "onresult opts ev s =
     (let (interimText, finalText) = event_texts ev;
          (s1, out1) = apply_interim interimText s;
          (s2, out2) = (if finalText \<noteq> [] then process_final opts finalText s1 else (s1, []))
      in (s2, out1 @ out2))"

subsection \<open>The error handler and the commands\<close>

text \<open>
  \<^verbatim>\<open>recognition.onerror\<close>: the message is stored and forwarded first; the test on the
  kinds \<^verbatim>\<open>no-speech\<close> and \<^verbatim>\<open>aborted\<close> follows and only returns.
\<close>

definition onerror :: "string \<Rightarrow> hook_state \<Rightarrow> hook_state \<times> callback list" where
  "onerror kind s =
     (let errorMsg = ''Speech recognition error: '' @ kind;
          s1 = s\<lparr>error := Some errorMsg\<rparr>;
          out = [OnError errorMsg]
      in if kind = ''no-speech'' \<or> kind = ''aborted'' then (s1, out) else (s1, out))"

text \<open>What \<^verbatim>\<open>recognitionRef.current.start()\<close> does when \<^verbatim>\<open>startListening\<close> calls it.\<close>

datatype start_outcome =
    Started
  | ThrowsError string
  | ThrowsOther

definition startListening :: "start_outcome \<Rightarrow> hook_state \<Rightarrow> hook_state \<times> callback list" where
  "startListening outcome s =
     (if \<not> recognitionRef s then
        (let errorMsg = ''Speech recognition not initialized''
         in (s\<lparr>error := Some errorMsg\<rparr>, [OnError errorMsg]))
      else case outcome of
        Started \<Rightarrow> (s\<lparr>isListening := True, error := None\<rparr>, [])
      | ThrowsError message \<Rightarrow>
          (if \<not> str_includes message ''already started'' then
             (let errorMsg = ''Failed to start recognition: '' @ message
              in (s\<lparr>error := Some errorMsg\<rparr>, [OnError errorMsg]))
           else (s, []))
      | ThrowsOther \<Rightarrow> (s, []))"

definition stopListening :: "hook_state \<Rightarrow> hook_state \<times> callback list" where
  "stopListening s =
     (if recognitionRef s then
        (s\<lparr>isListening := False, isActive := False, isActiveRef := False\<rparr>, [])
      else (s, []))"

definition resetTranscript :: "hook_state \<Rightarrow> hook_state \<times> callback list" where
  "resetTranscript s = (s\<lparr>transcript := [], interimTranscript := []\<rparr>, [])"

text \<open>
  The body of the effect: \<open>supported\<close> tells whether the host has
  \<^verbatim>\<open>window.SpeechRecognition\<close> or \<^verbatim>\<open>window.webkitSpeechRecognition\<close>.
\<close>

definition run_effect :: "bool \<Rightarrow> hook_state \<Rightarrow> hook_state \<times> callback list" where
  "run_effect supported s =
     (if \<not> supported then
        (let errorMsg = ''Speech Recognition API is not supported in this browser''
         in (s\<lparr>isSupported := False, error := Some errorMsg\<rparr>, [OnError errorMsg]))
      else (s\<lparr>isSupported := True, recognitionRef := True\<rparr>, []))"

subsection \<open>Runs of the hook\<close>

text \<open>
  What can happen to a mounted hook: the effect runs, a command is called, or the
  recognizer delivers a result or an error. The two handlers are properties of the
  recognizer object, so nothing is delivered while \<^verbatim>\<open>recognitionRef.current\<close> is
  \<^verbatim>\<open>null\<close>.
\<close>

datatype command =
    Effect bool
  | Start start_outcome
  | Stop
  | Reset
  | Result speech_event
  | Failure string

definition step :: "options \<Rightarrow> command \<Rightarrow> hook_state \<Rightarrow> hook_state \<times> callback list" where
  "step opts c s =
     (case c of
        Effect supported \<Rightarrow> run_effect supported s
      | Start outcome \<Rightarrow> startListening outcome s
      | Stop \<Rightarrow> stopListening s
      | Reset \<Rightarrow> resetTranscript s
      | Result ev \<Rightarrow> (if recognitionRef s then onresult opts ev s else (s, []))
      | Failure kind \<Rightarrow> (if recognitionRef s then onerror kind s else (s, [])))"

fun run :: "options \<Rightarrow> command list \<Rightarrow> hook_state \<Rightarrow> hook_state \<times> callback list" where
  "run opts [] s = (s, [])"
| "run opts (c # cs) s =
     (let (s1, out1) = step opts c s;
          (s2, out2) = run opts cs s1
      in (s2, out1 @ out2))"

text \<open>Recognition events handled one after the other, in arrival order.\<close>

fun onresults :: "options \<Rightarrow> speech_event list \<Rightarrow> hook_state \<Rightarrow> hook_state \<times> callback list" where
  "onresults opts [] s = (s, [])"
| "onresults opts (ev # evs) s =
     (let (s1, out1) = onresult opts ev s;
          (s2, out2) = onresults opts evs s1
      in (s2, out1 @ out2))"

subsection \<open>Vocabulary of the properties\<close>

text \<open>The results that the loop of the handler visits.\<close>

definition processed :: "speech_event \<Rightarrow> speech_result list" where
  "processed ev = drop (resultIndex ev) (results ev)"

text \<open>An event that carries one final hypothesis.\<close>

definition final_event :: "string \<Rightarrow> speech_event" where
  "final_event t = \<lparr>results = [\<lparr>alt_transcript = t, isFinal = True\<rparr>], resultIndex = 0\<rparr>"

text \<open>Case-insensitive substring test, as the handler performs it.\<close>

definition mentions :: "string \<Rightarrow> string \<Rightarrow> bool" where
  "mentions t w = str_includes (toLowerCase t) (toLowerCase w)"



text \<open>A final-text callback, \<^verbatim>\<open>onTranscript(text, true)\<close>.\<close>

fun is_final_transcript :: "callback \<Rightarrow> bool" where
  "is_final_transcript (OnTranscript t f) = f"
| "is_final_transcript OnWakeWordDetected = False"
| "is_final_transcript OnSleepWordDetected = False"
| "is_final_transcript (OnError m) = False"

text \<open>An interim-text callback, \<^verbatim>\<open>onTranscript(text, false)\<close>.\<close>

fun is_interim_transcript :: "callback \<Rightarrow> bool" where
  "is_interim_transcript (OnTranscript t f) = (\<not> f)"
| "is_interim_transcript OnWakeWordDetected = False"
| "is_interim_transcript OnSleepWordDetected = False"
| "is_interim_transcript (OnError m) = False"



text \<open>The interim text and the final text that the handler accumulates from an event.\<close>

definition interim_text :: "speech_event \<Rightarrow> string" where
  "interim_text ev = fst (event_texts ev)"

definition final_text :: "speech_event \<Rightarrow> string" where
  "final_text ev = snd (event_texts ev)"

text \<open>What a wake transition leaves in the transcript: the text after the wake word.\<close>

definition wake_segment :: "options \<Rightarrow> speech_event \<Rightarrow> string" where
  "wake_segment opts ev =
     (let textAfter = textAfterWakeWord opts (final_text ev)
      in if textAfter \<noteq> [] then textAfter @ '' '' else [])"

text \<open>The hook on a supporting host, after a successful \<open>startListening\<close>.\<close>

definition listening_state :: hook_state where
  "listening_state = fst (startListening Started (fst (run_effect True initial_state)))"

text \<open>
  While \<^verbatim>\<open>recognitionRef.current\<close> is \<^verbatim>\<open>null\<close> the hook neither listens nor is
  active.
\<close>

definition idle_without_recognizer :: "hook_state \<Rightarrow> bool" where
  "idle_without_recognizer s =
     (recognitionRef s \<or> (\<not> isListening s \<and> \<not> isActive s \<and> \<not> isActiveRef s))"

section \<open>Facts about the string operations\<close>

lemma str_includes_sublist: "str_includes s w \<longleftrightarrow> sublist w s"
  unfolding str_includes_def
  by (induction s) (auto simp: sublist_Cons_right split: option.splits)

lemma trim_sublist: "sublist (trim s) s"
proof -
  have "suffix (dropWhile isWhiteSpace (rev (dropWhile isWhiteSpace s))) (rev (dropWhile isWhiteSpace s))"
    by (rule suffix_dropWhile)
  then obtain ps where "rev (dropWhile isWhiteSpace s) = ps @ rev (trim s)"
    unfolding trim_def suffix_def by auto
  then have "dropWhile isWhiteSpace s = trim s @ rev ps"
    by (metis rev_append rev_rev_ident)
  moreover have "s = takeWhile isWhiteSpace s @ dropWhile isWhiteSpace s" by simp
  ultimately have "s = takeWhile isWhiteSpace s @ trim s @ rev ps" by simp
  then show ?thesis unfolding sublist_def by blast
qed

lemma trim_empty_iff: "trim s = [] \<longleftrightarrow> (\<forall>c\<in>set s. isWhiteSpace c)"
proof
  assume "trim s = []"
  then have a: "\<forall>x\<in>set (dropWhile isWhiteSpace s). isWhiteSpace x"
    unfolding trim_def by simp
  have "dropWhile isWhiteSpace s = []"
  proof (rule ccontr)
    assume n: "dropWhile isWhiteSpace s \<noteq> []"
    then have "\<not> isWhiteSpace (hd (dropWhile isWhiteSpace s))" by (rule hd_dropWhile)
    with a n show False by (meson hd_in_set)
  qed
  then show "\<forall>c\<in>set s. isWhiteSpace c" by simp
next
  assume "\<forall>c\<in>set s. isWhiteSpace c"
  then show "trim s = []" by (auto simp: trim_def dest: set_dropWhileD)
qed



lemma toLowerChar_space: "toLowerChar c = CHR '' '' \<longleftrightarrow> c = CHR '' ''"
proof
  assume a: "toLowerChar c = CHR '' ''"
  define n :: nat where "n = of_char c"
  show "c = CHR '' ''"
  proof (rule ccontr)
    assume "c \<noteq> CHR '' ''"
    with a have cond: "(65 \<le> n \<and> n \<le> 90) \<or> (192 \<le> n \<and> n \<le> 222 \<and> n \<noteq> 215)"
      and eq: "char_of (n + 32) = CHR '' ''"
      unfolding n_def by (auto simp: toLowerChar_def Let_def split: if_splits)
    have "(of_char (char_of (n + 32)) :: nat) = (n + 32) mod 256"
      by (rule of_char_of)
    with eq have "(n + 32) mod 256 = (of_char CHR '' '' :: nat)"
      by (simp only:)
    moreover have "(of_char CHR '' '' :: nat) = 32"
      by simp
    moreover from cond have "n + 32 < 256"
      by linarith
    then have "(n + 32) mod 256 = n + 32"
      by (rule mod_less)
    ultimately have "n + 32 = 32"
      by (simp only:)
    with cond show False by linarith
  qed
next
  assume "c = CHR '' ''"
  then show "toLowerChar c = CHR '' ''" by (simp add: toLowerChar_def)
qed

lemma collect_eq:
  "collect rs i f =
     (i @ concat (map (\<lambda>r. trim (alt_transcript r)) (filter (\<lambda>r. \<not> isFinal r) rs)),
      f @ concat (map (\<lambda>r. trim (alt_transcript r) @ '' '') (filter isFinal rs)))"
  by (induction rs arbitrary: i f) (simp_all add: Let_def)

lemma sublist_sep:
  assumes "c \<notin> set w" "w \<noteq> []"
  shows "sublist w (concat (map (\<lambda>t. g t @ [c]) ts)) \<Longrightarrow> \<exists>t\<in>set ts. sublist w (g t)"
proof (induction ts)
  case Nil
  with assms show ?case by simp
next
  case (Cons t ts)
  let ?rest = "concat (map (\<lambda>t. g t @ [c]) ts)"
  from Cons.prems have "sublist w (g t @ (c # ?rest))" by simp
  then consider (l) "sublist w (g t)" | (r) "sublist w (c # ?rest)"
    | (m) xs1 xs2 where "w = xs1 @ xs2" "suffix xs1 (g t)" "prefix xs2 (c # ?rest)"
    unfolding sublist_append by blast
  then show ?case
  proof cases
    case l
    then show ?thesis by simp
  next
    case r
    then have "prefix w (c # ?rest) \<or> sublist w ?rest" by (simp add: sublist_Cons_right)
    moreover have "\<not> prefix w (c # ?rest)"
      using assms by (cases w) auto
    ultimately have "sublist w ?rest" by simp
    with Cons.IH show ?thesis by simp
  next
    case m
    have "xs2 = []"
    proof (cases xs2)
      case Nil then show ?thesis .
    next
      case (Cons y ys)
      with m(3) have "y = c" by simp
      with m(1) Cons assms(1) show ?thesis by simp
    qed
    with m(1,2) have "sublist w (g t)" by simp
    then show ?thesis by simp
  qed
qed

section \<open>Properties of the hook\<close>

subsection \<open>Scenario: wake, then sleep\<close>

lemma scenario_A_texts:
  "event_texts (final_event ''hi how are you'') = ([], ''hi how are you '')"
  "str_includes (toLowerCase ''hi how are you '') (toLowerCase (wakeWord default_options))"
  "textAfterWakeWord default_options ''hi how are you '' = ''how are you''"
  by code_simp+

lemma scenario_B_texts:
  "event_texts (final_event ''fine bye see you'') = ([], ''fine bye see you '')"
  "str_includes (toLowerCase ''fine bye see you '') (toLowerCase (sleepWord default_options))"
  "textBeforeSleepWord default_options ''fine bye see you '' = ''fine''"
  by code_simp+

lemma scenario_A_step:
  assumes "\<not> isActiveRef s"
  shows "onresult default_options (final_event ''hi how are you'') s =
           (s\<lparr>isActiveRef := True, isActive := True, transcript := ''how are you '',
              interimTranscript := []\<rparr>,
            [OnWakeWordDetected, OnTranscript ''how are you'' True])"
  using assms
  by (simp add: onresult_def process_final_def apply_interim_def scenario_A_texts)

lemma scenario_B_step:
  assumes "isActiveRef s"
  shows "onresult default_options (final_event ''fine bye see you'') s =
           (s\<lparr>transcript := transcript s @ ''fine '', isActiveRef := False, isActive := False,
              interimTranscript := []\<rparr>,
            [OnTranscript ''fine'' True, OnSleepWordDetected])"
  using assms
  by (simp add: onresult_def process_final_def apply_interim_def scenario_B_texts)

text \<open>
  Claim C1. With the default options (wake word ``hi'', sleep word ``bye''), a final
  hypothesis ``hi how are you'' handled while waiting activates the hook, leaves the
  transcript ``how are you '' and invokes the wake callback exactly once; the final
  hypothesis ``fine bye see you'' handled next appends only the text before the sleep
  word, so that the transcript is ``how are you fine '', deactivates the hook and
  invokes the sleep callback exactly once.
\<close>

theorem scenario_wake_then_sleep:
  assumes "\<not> isActiveRef s"
  shows "let (sA, outA) = onresult default_options (final_event ''hi how are you'') s;
             (sB, outB) = onresult default_options (final_event ''fine bye see you'') sA
         in isActive sA \<and> isActiveRef sA \<and> transcript sA = ''how are you '' \<and>
            outA = [OnWakeWordDetected, OnTranscript ''how are you'' True] \<and>
            count_list outA OnWakeWordDetected = 1 \<and>
            \<not> isActive sB \<and> \<not> isActiveRef sB \<and> transcript sB = ''how are you fine '' \<and>
            outB = [OnTranscript ''fine'' True, OnSleepWordDetected] \<and>
            count_list outB OnSleepWordDetected = 1"
  using assms by (simp add: scenario_A_step scenario_B_step)

theorem scenario_wake_then_sleep_witness:
  "\<not> isActiveRef listening_state \<and>
   transcript (fst (onresult default_options (final_event ''fine bye see you'')
     (fst (onresult default_options (final_event ''hi how are you'') listening_state))))
   = ''how are you fine ''"
proof -
  have h: "\<not> isActiveRef listening_state" by code_simp
  from scenario_wake_then_sleep [OF h] h show ?thesis
    unfolding Let_def split_beta by blast
qed

subsection \<open>Structure of the result handler\<close>

lemma apply_interim_fields:
  "isActiveRef (fst (apply_interim i s)) = isActiveRef s"
  "isActive (fst (apply_interim i s)) = isActive s"
  "isListening (fst (apply_interim i s)) = isListening s"
  "transcript (fst (apply_interim i s)) = transcript s"
  "recognitionRef (fst (apply_interim i s)) = recognitionRef s"
  "error (fst (apply_interim i s)) = error s"
  by (simp_all add: apply_interim_def)

lemma process_final_frame:
  "recognitionRef (fst (process_final opts ft s)) = recognitionRef s"
  "isListening (fst (process_final opts ft s)) = isListening s"
  "error (fst (process_final opts ft s)) = error s"
  "interimTranscript (fst (process_final opts ft s)) = []"
  by (simp_all add: process_final_def Let_def split_beta)

lemma process_final_active_sync:
  "isActive s = isActiveRef s \<Longrightarrow>
   isActive (fst (process_final opts ft s)) = isActiveRef (fst (process_final opts ft s))"
  by (simp add: process_final_def Let_def split_beta)

lemma onresult_unfold:
  "onresult opts ev s =
     (let s1 = fst (apply_interim (fst (event_texts ev)) s);
          out1 = snd (apply_interim (fst (event_texts ev)) s)
      in if snd (event_texts ev) \<noteq> []
         then (fst (process_final opts (snd (event_texts ev)) s1),
               out1 @ snd (process_final opts (snd (event_texts ev)) s1))
         else (s1, out1))"
  by (simp add: onresult_def Let_def split_beta)

lemma onresult_frame:
  "recognitionRef (fst (onresult opts ev s)) = recognitionRef s"
  "isListening (fst (onresult opts ev s)) = isListening s"
  "error (fst (onresult opts ev s)) = error s"
  by (simp_all add: onresult_unfold Let_def process_final_frame apply_interim_fields)

lemma onresult_active_sync:
  "isActive s = isActiveRef s \<Longrightarrow>
   isActive (fst (onresult opts ev s)) = isActiveRef (fst (onresult opts ev s))"
  by (simp add: onresult_unfold Let_def process_final_active_sync apply_interim_fields)

subsection \<open>Stopping\<close>

lemma step_idle_without_recognizer:
  "idle_without_recognizer s \<Longrightarrow> idle_without_recognizer (fst (step opts c s))"
proof (cases c)
  case (Result ev)
  assume "idle_without_recognizer s"
  with Result show ?thesis
    by (auto simp: step_def idle_without_recognizer_def onresult_frame)
next
  case (Start outcome)
  assume "idle_without_recognizer s"
  with Start show ?thesis
    by (cases outcome) (auto simp: step_def idle_without_recognizer_def startListening_def Let_def)
qed (auto simp: step_def idle_without_recognizer_def run_effect_def stopListening_def
       resetTranscript_def onerror_def Let_def)

lemma run_idle_without_recognizer:
  "idle_without_recognizer s \<Longrightarrow> idle_without_recognizer (fst (run opts cs s))"
proof (induction cs arbitrary: s)
  case Nil
  then show ?case by simp
next
  case (Cons c cs)
  from Cons.prems have "idle_without_recognizer (fst (step opts c s))"
    by (rule step_idle_without_recognizer)
  then have "idle_without_recognizer (fst (run opts cs (fst (step opts c s))))"
    by (rule Cons.IH)
  then show ?case by (simp add: split_beta)
qed

text \<open>
  Claim C7. In every state that a run of the hook reaches, \<open>stopListening\<close> leaves
  \<open>isListening\<close> and \<open>isActive\<close> false (and the ref that mirrors \<open>isActive\<close> with it), also
  when no recognizer was ever created, and it never invokes the sleep callback.
\<close>

theorem stopListening_forces_waiting:
  "\<not> isListening (fst (stopListening (fst (run opts cs initial_state)))) \<and>
   \<not> isActive (fst (stopListening (fst (run opts cs initial_state)))) \<and>
   \<not> isActiveRef (fst (stopListening (fst (run opts cs initial_state)))) \<and>
   OnSleepWordDetected \<notin> set (snd (stopListening (fst (run opts cs initial_state))))"
proof -
  have "idle_without_recognizer initial_state"
    by (simp add: idle_without_recognizer_def initial_state_def)
  then have "idle_without_recognizer (fst (run opts cs initial_state))"
    by (rule run_idle_without_recognizer)
  then show ?thesis
    by (auto simp: idle_without_recognizer_def stopListening_def)
qed

subsection \<open>Clearing the transcript\<close>

text \<open>
  Claim C8. \<open>resetTranscript\<close> empties \<open>transcript\<close> and \<open>interimTranscript\<close> and leaves
  \<open>isActive\<close>, \<open>isListening\<close> and \<open>error\<close> as they were, in every state.
\<close>

theorem resetTranscript_frame:
  "transcript (fst (resetTranscript s)) = [] \<and>
   interimTranscript (fst (resetTranscript s)) = [] \<and>
   isActive (fst (resetTranscript s)) = isActive s \<and>
   isListening (fst (resetTranscript s)) = isListening s \<and>
   error (fst (resetTranscript s)) = error s \<and>
   isActiveRef (fst (resetTranscript s)) = isActiveRef s \<and>
   snd (resetTranscript s) = []"
  by (simp add: resetTranscript_def)

subsection \<open>Recognition errors\<close>

text \<open>
  Claim C3. The handler records and forwards an error of every kind; the kinds
  \<open>no-speech\<close> and \<open>aborted\<close> are recorded and forwarded like the others, because the
  test on the kind comes after the two calls.
\<close>

theorem onerror_records_suppressed_kinds:
  "error (fst (onerror ''no-speech'' s)) = Some ''Speech recognition error: no-speech'' \<and>
   snd (onerror ''no-speech'' s) = [OnError ''Speech recognition error: no-speech''] \<and>
   error (fst (onerror ''aborted'' s)) = Some ''Speech recognition error: aborted'' \<and>
   snd (onerror ''aborted'' s) = [OnError ''Speech recognition error: aborted'']"
  by (simp add: onerror_def Let_def)

subsection \<open>The texts of an event\<close>

lemma event_texts_eq:
  "interim_text ev =
     concat (map (\<lambda>r. trim (alt_transcript r)) (filter (\<lambda>r. \<not> isFinal r) (processed ev)))"
  "final_text ev =
     concat (map (\<lambda>r. trim (alt_transcript r) @ '' '') (filter isFinal (processed ev)))"
  by (simp_all add: interim_text_def final_text_def event_texts_def processed_def collect_eq)

lemma final_text_nonempty: "final_text ev \<noteq> [] \<longleftrightarrow> (\<exists>r\<in>set (processed ev). isFinal r)"
  by (auto simp: event_texts_eq)

lemma onresult_texts:
  "onresult opts ev s =
     (let s1 = fst (apply_interim (interim_text ev) s);
          out1 = snd (apply_interim (interim_text ev) s)
      in if final_text ev \<noteq> []
         then (fst (process_final opts (final_text ev) s1),
               out1 @ snd (process_final opts (final_text ev) s1))
         else (s1, out1))"
  unfolding interim_text_def final_text_def by (rule onresult_unfold)

lemma toLowerCase_final_text:
  "toLowerCase (final_text ev) =
     concat (map (\<lambda>r. toLowerCase (trim (alt_transcript r)) @ '' '')
       (filter isFinal (processed ev)))"
proof -
  have sp: "toLowerChar CHR '' '' = CHR '' ''"
    by (simp add: toLowerChar_space)
  show ?thesis
    by (simp add: event_texts_eq toLowerCase_def map_concat comp_def sp)
qed

lemma wake_word_not_in_final_text:
  assumes nosp: "CHR '' '' \<notin> set w"
    and nowake: "\<forall>r\<in>set (processed ev). isFinal r \<longrightarrow> \<not> mentions (alt_transcript r) w"
    and fin: "final_text ev \<noteq> []"
  shows "\<not> mentions (final_text ev) w"
proof
  assume m: "mentions (final_text ev) w"
  from fin obtain r0 where r0: "r0 \<in> set (processed ev)" "isFinal r0"
    by (auto simp: final_text_nonempty)
  with nowake have "\<not> mentions (alt_transcript r0) w" by simp
  then have wne: "toLowerCase w \<noteq> []"
    by (auto simp: mentions_def str_includes_sublist toLowerCase_def)
  have nosp': "CHR '' '' \<notin> set (toLowerCase w)"
  proof
    assume "CHR '' '' \<in> set (toLowerCase w)"
    then obtain x where x: "x \<in> set w" "toLowerChar x = CHR '' ''"
      by (auto simp: toLowerCase_def)
    from x(2) have "x = CHR '' ''" by (simp add: toLowerChar_space)
    with x(1) nosp show False by simp
  qed
  from m have "sublist (toLowerCase w)
      (concat (map (\<lambda>r. toLowerCase (trim (alt_transcript r)) @ [CHR '' ''])
         (filter isFinal (processed ev))))"
    by (simp add: mentions_def str_includes_sublist toLowerCase_final_text)
  from sublist_sep [OF nosp' wne this]
  obtain r where r: "r \<in> set (processed ev)" "isFinal r"
    and sub: "sublist (toLowerCase w) (toLowerCase (trim (alt_transcript r)))"
    by auto
  have "sublist (toLowerCase (trim (alt_transcript r))) (toLowerCase (alt_transcript r))"
    unfolding toLowerCase_def by (rule map_mono_sublist) (rule trim_sublist)
  with sub have "sublist (toLowerCase w) (toLowerCase (alt_transcript r))"
    by (meson sublist_order.order_trans)
  then have "mentions (alt_transcript r) w"
    by (simp add: mentions_def str_includes_sublist)
  with nowake r show False by simp
qed

lemma waiting_without_wake_step:
  assumes "\<not> isActiveRef s"
    and "CHR '' '' \<notin> set (wakeWord opts)"
    and "\<forall>r\<in>set (processed ev). isFinal r \<longrightarrow> \<not> mentions (alt_transcript r) (wakeWord opts)"
  shows "fst (onresult opts ev s) = (fst (apply_interim (interim_text ev) s))\<lparr>interimTranscript :=
            if final_text ev \<noteq> [] then [] else interimTranscript (fst (apply_interim (interim_text ev) s))\<rparr>"
    and "snd (onresult opts ev s) = snd (apply_interim (interim_text ev) s)"
proof -
  have nm: "final_text ev \<noteq> [] \<Longrightarrow>
      \<not> str_includes (toLowerCase (final_text ev)) (toLowerCase (wakeWord opts))"
    using wake_word_not_in_final_text [OF assms(2,3)] by (simp add: mentions_def)
  show "fst (onresult opts ev s) = (fst (apply_interim (interim_text ev) s))\<lparr>interimTranscript :=
            if final_text ev \<noteq> [] then [] else interimTranscript (fst (apply_interim (interim_text ev) s))\<rparr>"
    using assms(1) nm
    by (simp add: onresult_texts process_final_def Let_def apply_interim_fields)
  show "snd (onresult opts ev s) = snd (apply_interim (interim_text ev) s)"
    using assms(1) nm
    by (simp add: onresult_texts process_final_def Let_def apply_interim_fields)
qed

subsection \<open>Final text while waiting\<close>

theorem waiting_final_not_forwarded_counterexample:
  "OnTranscript ''hello world'' True
     \<notin> set (snd (onresult default_options (final_event ''hello world'') listening_state)) \<and>
   snd (onresult default_options (final_event ''hello world'') listening_state) = []"
  by code_simp

text \<open>
  Claim C2, amended. For a wake word without a space character: when no final
  hypothesis of an event handled while waiting contains the wake word, the transcript is
  unchanged, the hook stays inactive and no final-text callback is invoked; the text is
  only logged.
\<close>

theorem waiting_final_without_wake_word:
  assumes "\<not> isActiveRef s" and "\<not> isActive s"
    and "CHR '' '' \<notin> set (wakeWord opts)"
    and "\<forall>r\<in>set (processed ev). isFinal r \<longrightarrow> \<not> mentions (alt_transcript r) (wakeWord opts)"
  shows "transcript (fst (onresult opts ev s)) = transcript s \<and>
         \<not> isActive (fst (onresult opts ev s)) \<and>
         \<not> isActiveRef (fst (onresult opts ev s)) \<and>
         filter is_final_transcript (snd (onresult opts ev s)) = []"
  using assms(1,2) waiting_without_wake_step [OF assms(1,3,4)]
  by (simp add: apply_interim_def)

theorem waiting_final_without_wake_word_witness:
  "\<not> isActiveRef listening_state \<and> \<not> isActive listening_state \<and>
   CHR '' '' \<notin> set (wakeWord default_options) \<and>
   \<not> mentions ''hello world'' (wakeWord default_options) \<and>
   transcript (fst (onresult default_options (final_event ''hello world'') listening_state)) =
     transcript listening_state \<and>
   filter is_final_transcript
     (snd (onresult default_options (final_event ''hello world'') listening_state)) = []"
proof -
  have h1: "\<not> isActiveRef listening_state" by code_simp
  have h2: "\<not> isActive listening_state" by code_simp
  have h3: "CHR '' '' \<notin> set (wakeWord default_options)" by code_simp
  have h4: "\<forall>r\<in>set (processed (final_event ''hello world'')).
      isFinal r \<longrightarrow> \<not> mentions (alt_transcript r) (wakeWord default_options)" by code_simp
  have h5: "\<not> mentions ''hello world'' (wakeWord default_options)" by code_simp
  from waiting_final_without_wake_word [OF h1 h2 h3 h4] h1 h2 h3 h5
  show ?thesis by blast
qed

subsection \<open>Interim and final hypotheses in one event\<close>

theorem interim_survives_final_counterexample:
  "interim_text \<lparr>results = [\<lparr>alt_transcript = ''hel'', isFinal = False\<rparr>,
       \<lparr>alt_transcript = ''hello'', isFinal = True\<rparr>], resultIndex = 0\<rparr> = ''hel'' \<and>
   interimTranscript (fst (onresult default_options
     \<lparr>results = [\<lparr>alt_transcript = ''hel'', isFinal = False\<rparr>,
       \<lparr>alt_transcript = ''hello'', isFinal = True\<rparr>], resultIndex = 0\<rparr> listening_state)) = []"
  by code_simp

text \<open>
  Claim C4, amended. For every event with a final hypothesis, the interim block of the
  handler runs before the final block. When the interim text of the event (its trimmed
  interim hypotheses, concatenated) is not empty and the hook is waiting, the callback
  \<^verbatim>\<open>onTranscript(interimText, false)\<close> is the first callback invoked and the only
  interim callback; when the interim text is empty or the hook is active, no interim
  callback is invoked. \<open>interimTranscript\<close> is cleared at the end of the final block, so
  it is empty when the event completes.
\<close>

theorem final_clears_interim:
  assumes "\<exists>r\<in>set (processed ev). isFinal r"
  shows "interimTranscript (fst (onresult opts ev s)) = [] \<and>
         (interim_text ev \<noteq> [] \<and> \<not> isActiveRef s \<longrightarrow>
            take 1 (snd (onresult opts ev s)) = [OnTranscript (interim_text ev) False] \<and>
            filter is_interim_transcript (snd (onresult opts ev s)) =
              [OnTranscript (interim_text ev) False]) \<and>
         (interim_text ev = [] \<or> isActiveRef s \<longrightarrow>
            filter is_interim_transcript (snd (onresult opts ev s)) = [])"
proof -
  from assms have "final_text ev \<noteq> []" by (simp add: final_text_nonempty)
  then show ?thesis
    by (simp add: onresult_texts Let_def process_final_frame apply_interim_def
        process_final_def split_beta)
qed

theorem final_clears_interim_witness:
  "interim_text \<lparr>results = [\<lparr>alt_transcript = ''hel'', isFinal = False\<rparr>,
       \<lparr>alt_transcript = ''hello'', isFinal = True\<rparr>], resultIndex = 0\<rparr> \<noteq> [] \<and>
   \<not> isActiveRef listening_state \<and>
   interimTranscript (fst (onresult default_options
     \<lparr>results = [\<lparr>alt_transcript = ''hel'', isFinal = False\<rparr>,
       \<lparr>alt_transcript = ''hello'', isFinal = True\<rparr>], resultIndex = 0\<rparr> listening_state)) = [] \<and>
   filter is_interim_transcript (snd (onresult default_options
     \<lparr>results = [\<lparr>alt_transcript = ''hel'', isFinal = False\<rparr>,
       \<lparr>alt_transcript = ''hello'', isFinal = True\<rparr>], resultIndex = 0\<rparr> listening_state)) =
     [OnTranscript (interim_text \<lparr>results = [\<lparr>alt_transcript = ''hel'', isFinal = False\<rparr>,
       \<lparr>alt_transcript = ''hello'', isFinal = True\<rparr>], resultIndex = 0\<rparr>) False]"
proof -
  have h: "\<exists>r\<in>set (processed \<lparr>results = [\<lparr>alt_transcript = ''hel'', isFinal = False\<rparr>,
       \<lparr>alt_transcript = ''hello'', isFinal = True\<rparr>], resultIndex = 0\<rparr>). isFinal r"
    by code_simp
  have i: "interim_text \<lparr>results = [\<lparr>alt_transcript = ''hel'', isFinal = False\<rparr>,
       \<lparr>alt_transcript = ''hello'', isFinal = True\<rparr>], resultIndex = 0\<rparr> \<noteq> []"
    by code_simp
  have w: "\<not> isActiveRef listening_state"
    by code_simp
  from final_clears_interim [OF h, of default_options listening_state] i w
  show ?thesis by blast
qed

subsection \<open>Sequences of events while waiting\<close>

lemma waiting_sequence_aux:
  assumes "\<not> isActiveRef s" and "\<not> isActive s"
    and "CHR '' '' \<notin> set (wakeWord opts)"
    and "\<forall>ev\<in>set evs. \<forall>r\<in>set (processed ev).
           isFinal r \<longrightarrow> \<not> mentions (alt_transcript r) (wakeWord opts)"
  shows "transcript (fst (onresults opts evs s)) = transcript s \<and>
         \<not> isActive (fst (onresults opts evs s)) \<and>
         \<not> isActiveRef (fst (onresults opts evs s))"
  using assms
proof (induction evs arbitrary: s)
  case Nil
  then show ?case by simp
next
  case (Cons ev evs)
  let ?s1 = "fst (onresult opts ev s)"
  from Cons.prems(4)
  have here: "\<forall>r\<in>set (processed ev). isFinal r \<longrightarrow> \<not> mentions (alt_transcript r) (wakeWord opts)"
    and rest: "\<forall>ev\<in>set evs. \<forall>r\<in>set (processed ev).
           isFinal r \<longrightarrow> \<not> mentions (alt_transcript r) (wakeWord opts)"
    by simp_all
  from waiting_without_wake_step(1) [OF Cons.prems(1,3) here] Cons.prems(1,2)
  have s1: "transcript ?s1 = transcript s" "\<not> isActive ?s1" "\<not> isActiveRef ?s1"
    by (simp_all add: apply_interim_def)
  from Cons.IH [OF s1(3) s1(2) Cons.prems(3) rest] s1(1)
  show ?case by (simp add: split_beta)
qed

theorem wake_phrase_across_hypotheses_counterexample:
  "\<not> mentions ''hi'' ''hi there'' \<and> \<not> mentions ''there'' ''hi there'' \<and>
   \<not> isActive listening_state \<and>
   isActive (fst (onresults \<lparr>wakeWord = ''hi there'', sleepWord = ''bye''\<rparr>
     [\<lparr>results = [\<lparr>alt_transcript = ''hi'', isFinal = True\<rparr>,
        \<lparr>alt_transcript = ''there'', isFinal = True\<rparr>], resultIndex = 0\<rparr>] listening_state))"
  by code_simp

text \<open>
  Claim C5, amended. For a wake word without a space character: over every sequence of
  events handled from a waiting state, none of whose final hypotheses contains the wake
  word (they may contain the sleep word), the transcript stays what it was and the hook
  stays inactive after each event of the sequence.
\<close>

theorem waiting_sequence_without_wake_word:
  assumes "\<not> isActiveRef s" and "\<not> isActive s"
    and "CHR '' '' \<notin> set (wakeWord opts)"
    and "\<forall>ev\<in>set evs. \<forall>r\<in>set (processed ev).
           isFinal r \<longrightarrow> \<not> mentions (alt_transcript r) (wakeWord opts)"
  shows "\<forall>n. transcript (fst (onresults opts (take n evs) s)) = transcript s \<and>
             \<not> isActive (fst (onresults opts (take n evs) s))"
proof
  fix n
  from assms(4)
  have "\<forall>ev\<in>set (take n evs). \<forall>r\<in>set (processed ev).
           isFinal r \<longrightarrow> \<not> mentions (alt_transcript r) (wakeWord opts)"
    by (meson in_set_takeD)
  from waiting_sequence_aux [OF assms(1,2,3) this]
  show "transcript (fst (onresults opts (take n evs) s)) = transcript s \<and>
        \<not> isActive (fst (onresults opts (take n evs) s))"
    by simp
qed

theorem waiting_sequence_without_wake_word_witness:
  "\<not> isActiveRef listening_state \<and> \<not> isActive listening_state \<and>
   CHR '' '' \<notin> set (wakeWord default_options) \<and>
   \<not> mentions ''hello world'' (wakeWord default_options) \<and>
   \<not> mentions ''good bye'' (wakeWord default_options) \<and>
   (\<forall>n. transcript (fst (onresults default_options
       (take n [final_event ''hello world'', final_event ''good bye'']) listening_state)) =
         transcript listening_state \<and>
       \<not> isActive (fst (onresults default_options
         (take n [final_event ''hello world'', final_event ''good bye'']) listening_state)))"
proof -
  have h1: "\<not> isActiveRef listening_state" by code_simp
  have h2: "\<not> isActive listening_state" by code_simp
  have h3: "CHR '' '' \<notin> set (wakeWord default_options)" by code_simp
  have h4: "\<forall>ev\<in>set [final_event ''hello world'', final_event ''good bye''].
      \<forall>r\<in>set (processed ev). isFinal r \<longrightarrow> \<not> mentions (alt_transcript r) (wakeWord default_options)"
    by code_simp
  have h5: "\<not> mentions ''hello world'' (wakeWord default_options)" by code_simp
  have h6: "\<not> mentions ''good bye'' (wakeWord default_options)" by code_simp
  from waiting_sequence_without_wake_word [OF h1 h2 h3 h4] h1 h2 h3 h5 h6
  show ?thesis by blast
qed

subsection \<open>A wake or sleep word with no text to commit\<close>

lemma blank_textAfterWakeWord:
  "(\<forall>c\<in>set (substring ft
       (indexOf (toLowerCase ft) (toLowerCase (wakeWord opts)) + int (length (wakeWord opts)))
       None). isWhiteSpace c)
   \<longleftrightarrow> textAfterWakeWord opts ft = []"
  by (simp add: textAfterWakeWord_def Let_def trim_empty_iff)

lemma blank_textBeforeSleepWord:
  "(\<forall>c\<in>set (substring ft 0
       (Some (indexOf (toLowerCase ft) (toLowerCase (sleepWord opts))))). isWhiteSpace c)
   \<longleftrightarrow> textBeforeSleepWord opts ft = []"
  by (simp add: textBeforeSleepWord_def Let_def trim_empty_iff)

text \<open>
  Claim C10. When the wake word is detected and only white space follows it in the
  final text, the event ends with an empty transcript and no final-text callback is
  invoked; when the sleep word is detected and only white space precedes it, the
  transcript is unchanged and no final-text callback is invoked.
\<close>

theorem wake_or_sleep_without_text:
  "(\<not> isActiveRef s \<and> final_text ev \<noteq> [] \<and> mentions (final_text ev) (wakeWord opts) \<and>
    (\<forall>c\<in>set (substring (final_text ev)
        (indexOf (toLowerCase (final_text ev)) (toLowerCase (wakeWord opts))
           + int (length (wakeWord opts))) None). isWhiteSpace c)
    \<longrightarrow> isActive (fst (onresult opts ev s)) \<and>
        transcript (fst (onresult opts ev s)) = [] \<and>
        OnWakeWordDetected \<in> set (snd (onresult opts ev s)) \<and>
        filter is_final_transcript (snd (onresult opts ev s)) = []) \<and>
   (isActiveRef s \<and> final_text ev \<noteq> [] \<and> mentions (final_text ev) (sleepWord opts) \<and>
    (\<forall>c\<in>set (substring (final_text ev) 0
        (Some (indexOf (toLowerCase (final_text ev)) (toLowerCase (sleepWord opts))))).
        isWhiteSpace c)
    \<longrightarrow> \<not> isActive (fst (onresult opts ev s)) \<and>
        transcript (fst (onresult opts ev s)) = transcript s \<and>
        OnSleepWordDetected \<in> set (snd (onresult opts ev s)) \<and>
        filter is_final_transcript (snd (onresult opts ev s)) = [])"
  unfolding blank_textAfterWakeWord blank_textBeforeSleepWord
  by (simp add: onresult_texts Let_def process_final_def apply_interim_def mentions_def
      split_beta)


theorem wake_or_sleep_without_text_witness:
  "(\<not> isActiveRef listening_state \<and> final_text (final_event ''hi'') \<noteq> [] \<and>
    mentions (final_text (final_event ''hi'')) (wakeWord default_options) \<and>
    substring (final_text (final_event ''hi''))
        (indexOf (toLowerCase (final_text (final_event ''hi'')))
           (toLowerCase (wakeWord default_options))
           + int (length (wakeWord default_options))) None = '' '') \<and>
   transcript (fst (onresult default_options (final_event ''hi'') listening_state)) = [] \<and>
   filter is_final_transcript
     (snd (onresult default_options (final_event ''hi'') listening_state)) = [] \<and>
   (isActiveRef (fst (onresult default_options (final_event ''hi there'') listening_state)) \<and>
    final_text (final_event ''bye now'') \<noteq> [] \<and>
    mentions (final_text (final_event ''bye now'')) (sleepWord default_options) \<and>
    substring (final_text (final_event ''bye now'')) 0
        (Some (indexOf (toLowerCase (final_text (final_event ''bye now'')))
           (toLowerCase (sleepWord default_options)))) = []) \<and>
   transcript (fst (onresult default_options (final_event ''bye now'')
       (fst (onresult default_options (final_event ''hi there'') listening_state)))) =
     transcript (fst (onresult default_options (final_event ''hi there'') listening_state)) \<and>
   filter is_final_transcript
     (snd (onresult default_options (final_event ''bye now'')
       (fst (onresult default_options (final_event ''hi there'') listening_state)))) = []"
proof -
  have hw: "\<not> isActiveRef listening_state \<and> final_text (final_event ''hi'') \<noteq> [] \<and>
    mentions (final_text (final_event ''hi'')) (wakeWord default_options) \<and>
    (\<forall>c\<in>set (substring (final_text (final_event ''hi''))
        (indexOf (toLowerCase (final_text (final_event ''hi'')))
           (toLowerCase (wakeWord default_options))
           + int (length (wakeWord default_options))) None). isWhiteSpace c)"
    by code_simp
  have hs: "isActiveRef (fst (onresult default_options (final_event ''hi there'') listening_state)) \<and>
    final_text (final_event ''bye now'') \<noteq> [] \<and>
    mentions (final_text (final_event ''bye now'')) (sleepWord default_options) \<and>
    (\<forall>c\<in>set (substring (final_text (final_event ''bye now'')) 0
        (Some (indexOf (toLowerCase (final_text (final_event ''bye now'')))
           (toLowerCase (sleepWord default_options))))). isWhiteSpace c)"
    by code_simp
  have tw: "substring (final_text (final_event ''hi''))
        (indexOf (toLowerCase (final_text (final_event ''hi'')))
           (toLowerCase (wakeWord default_options))
           + int (length (wakeWord default_options))) None = '' ''"
    by code_simp
  have ts: "substring (final_text (final_event ''bye now'')) 0
        (Some (indexOf (toLowerCase (final_text (final_event ''bye now'')))
           (toLowerCase (sleepWord default_options)))) = []"
    by code_simp
  from hw hs tw ts
    wake_or_sleep_without_text [of listening_state "final_event ''hi''" default_options]
    wake_or_sleep_without_text
      [of "fst (onresult default_options (final_event ''hi there'') listening_state)"
          "final_event ''bye now''" default_options]
  show ?thesis by blast
qed

subsection \<open>Where the transcript is reset\<close>

lemma onresult_wake_transition:
  assumes "\<not> isActiveRef s" and "isActiveRef (fst (onresult opts ev s))"
  shows "transcript (fst (onresult opts ev s)) = wake_segment opts ev"
  using assms
  by (simp add: onresult_texts Let_def process_final_def apply_interim_def wake_segment_def
      split_beta split: if_splits)

lemma onresult_waiting_frame:
  assumes "\<not> isActiveRef s" and "\<not> isActiveRef (fst (onresult opts ev s))"
  shows "transcript (fst (onresult opts ev s)) = transcript s"
  using assms
  by (simp add: onresult_texts Let_def process_final_def apply_interim_def
      split_beta split: if_splits)

lemma onresult_active_prefix:
  assumes "isActiveRef s"
  shows "prefix (transcript s) (transcript (fst (onresult opts ev s)))"
  using assms
  by (simp add: onresult_texts Let_def process_final_def apply_interim_def split_beta)

text \<open>
  Claim C6. Over a round trip waiting, active, waiting, active, the transcript after
  each wake transition is the text that followed the wake word in that event and nothing
  else, so what was accumulated before is dropped there; the sleep transition keeps what
  was accumulated. An event handled while active, whether or not it contains the wake
  word, keeps what was accumulated, and an event that leaves a waiting hook waiting
  leaves the transcript as it was.
\<close>

theorem transcript_reset_only_at_wake:
  assumes "s1 = fst (onresult opts ev1 s0)"
    and "s2 = fst (onresult opts ev2 s1)"
    and "s3 = fst (onresult opts ev3 s2)"
    and "\<not> isActiveRef s0" and "isActiveRef s1" and "\<not> isActiveRef s2" and "isActiveRef s3"
  shows "transcript s1 = wake_segment opts ev1 \<and>
         prefix (transcript s1) (transcript s2) \<and>
         transcript s3 = wake_segment opts ev3 \<and>
         (\<forall>ev s. isActiveRef s \<longrightarrow>
            prefix (transcript s) (transcript (fst (onresult opts ev s)))) \<and>
         (\<forall>ev s. \<not> isActiveRef s \<and> \<not> isActiveRef (fst (onresult opts ev s)) \<longrightarrow>
            transcript (fst (onresult opts ev s)) = transcript s)"
proof -
  have "transcript s1 = wake_segment opts ev1"
    using assms(1,4,5) by (simp add: onresult_wake_transition)
  moreover have "prefix (transcript s1) (transcript s2)"
    using assms(2,5) by (simp add: onresult_active_prefix)
  moreover have "transcript s3 = wake_segment opts ev3"
    using assms(3,6,7) by (simp add: onresult_wake_transition)
  ultimately show ?thesis
    by (simp add: onresult_active_prefix onresult_waiting_frame)
qed

theorem transcript_reset_only_at_wake_witness:
  "\<not> isActiveRef listening_state \<and>
   isActiveRef (fst (onresult default_options (final_event ''hi how are you'') listening_state)) \<and>
   \<not> isActiveRef (fst (onresult default_options (final_event ''fine bye'')
      (fst (onresult default_options (final_event ''hi how are you'') listening_state)))) \<and>
   isActiveRef (fst (onresult default_options (final_event ''hi again'')
      (fst (onresult default_options (final_event ''fine bye'')
        (fst (onresult default_options (final_event ''hi how are you'') listening_state)))))) \<and>
   transcript (fst (onresult default_options (final_event ''hi again'')
      (fst (onresult default_options (final_event ''fine bye'')
        (fst (onresult default_options (final_event ''hi how are you'') listening_state))))))
     = wake_segment default_options (final_event ''hi again'')"
proof -
  have h0: "\<not> isActiveRef listening_state"
    by code_simp
  have h1: "isActiveRef (fst (onresult default_options (final_event ''hi how are you'')
      listening_state))"
    by code_simp
  have h2: "\<not> isActiveRef (fst (onresult default_options (final_event ''fine bye'')
      (fst (onresult default_options (final_event ''hi how are you'') listening_state))))"
    by code_simp
  have h3: "isActiveRef (fst (onresult default_options (final_event ''hi again'')
      (fst (onresult default_options (final_event ''fine bye'')
        (fst (onresult default_options (final_event ''hi how are you'') listening_state))))))"
    by code_simp
  from transcript_reset_only_at_wake [OF refl refl refl h0 h1 h2 h3] h0 h1 h2 h3
  show ?thesis by blast
qed

subsection \<open>The end of the transcript\<close>






















end
